theory Spec2Isabelle
  imports Main "HOL-Library.Sublist"
begin

section \<open>JavaScript values as static/main.js handles them\<close>

text \<open>
  The script receives its data from \<^verbatim>\<open>res.json()\<close>, so a value is a JSON value, or
  \<^verbatim>\<open>undefined\<close> where a property is missing. A Number is represented by the text that
  \<^verbatim>\<open>Number.prototype.toString\<close> prints for it (\<open>JNum ''40''\<close>, \<open>JNum ''0.5''\<close>); the
  script never computes with numbers, it only prints them and tests their truthiness.
  An object is the list of its own properties.
\<close>

datatype jsval =
    JUndefined
  | JNull
  | JBool bool
  | JNum string
  | JStr string
  | JArr "jsval list"
  | JObj "(string \<times> jsval) list"

datatype error = TypeError | SyntaxError | NetworkFailure

text \<open>Truthiness: what \<^verbatim>\<open>||\<close>, \<^verbatim>\<open>!\<close>, \<^verbatim>\<open>?:\<close> and \<^verbatim>\<open>Boolean\<close> test. Both zeros print as 0.\<close>

fun ToBoolean :: "jsval \<Rightarrow> bool" where
  "ToBoolean JUndefined = False"
| "ToBoolean JNull = False"
| "ToBoolean (JBool b) = b"
| "ToBoolean (JNum t) = (t \<noteq> ''0'' \<and> t \<noteq> ''NaN'')"
| "ToBoolean (JStr t) = (t \<noteq> [])"
| "ToBoolean (JArr xs) = True"
| "ToBoolean (JObj kvs) = True"

definition js_or :: "jsval \<Rightarrow> jsval \<Rightarrow> jsval" where
  "js_or a b = (if ToBoolean a then a else b)"

text \<open>
  String coercion, as a template literal and \<^verbatim>\<open>+\<close> with a string perform it. An array
  joins its elements with commas, printing \<^verbatim>\<open>null\<close> as the empty string. An object
  prints through \<^verbatim>\<open>Object.prototype.toString\<close>, unless it has an own property named
  \<^verbatim>\<open>toString\<close>: parsed from JSON that property is no function, and the coercion
  throws a TypeError.
\<close>

fun ToString :: "jsval \<Rightarrow> error + string"
and join :: "jsval list \<Rightarrow> error + string" where
  "ToString JUndefined = Inr ''undefined''"
| "ToString JNull = Inr ''null''"
| "ToString (JBool b) = Inr (if b then ''true'' else ''false'')"
| "ToString (JNum t) = Inr t"
| "ToString (JStr t) = Inr t"
| "ToString (JArr xs) = join xs"
| "ToString (JObj kvs) =
     (if ''toString'' \<in> fst ` set kvs then Inl TypeError else Inr ''[object Object]'')"
| "join [] = Inr []"
| "join (x # xs) =
     (case (if x = JUndefined \<or> x = JNull then Inr [] else ToString x) of
        Inl e \<Rightarrow> Inl e
      | Inr t \<Rightarrow>
          if xs = [] then Inr t
          else (case join xs of Inl e \<Rightarrow> Inl e | Inr u \<Rightarrow> Inr (t @ '','' @ u)))"

text \<open>
  The values whose string coercion cannot throw: no object that gets printed has an own
  property named \<^verbatim>\<open>toString\<close>. Every string, number and boolean is one.
\<close>

fun plain :: "jsval \<Rightarrow> bool" where
  "plain (JArr xs) = list_all plain xs"
| "plain (JObj kvs) = (''toString'' \<notin> fst ` set kvs)"
| "plain v = True"

text \<open>The method call \<^verbatim>\<open>v.toString()\<close>: it throws on \<^verbatim>\<open>null\<close> and \<^verbatim>\<open>undefined\<close>.\<close>

definition toString_call :: "jsval \<Rightarrow> error + string" where
  "toString_call v = (if v = JUndefined \<or> v = JNull then Inl TypeError else ToString v)"

text \<open>
  The property read \<^verbatim>\<open>v.name\<close>, for the names the script reads (fullname, phone, error,
  job_id, preview, send_job_id, percent, status, sent, total, failed): none of them is
  defined on a built-in prototype, so only an own property of an object answers.
\<close>

definition own_prop :: "(string \<times> jsval) list \<Rightarrow> string \<Rightarrow> jsval" where
  "own_prop kvs name = (case map_of kvs name of None \<Rightarrow> JUndefined | Some x \<Rightarrow> x)"

definition js_get :: "jsval \<Rightarrow> string \<Rightarrow> error + jsval" where
  "js_get v name =
     (case v of
        JUndefined \<Rightarrow> Inl TypeError
      | JNull \<Rightarrow> Inl TypeError
      | JObj kvs \<Rightarrow> Inr (own_prop kvs name)
      | _ \<Rightarrow> Inr JUndefined)"

definition digit :: "nat \<Rightarrow> char" where
  "digit n = ''0123456789'' ! n"

fun dec :: "nat \<Rightarrow> string" where
  "dec n = (if n < 10 then [digit n] else dec (n div 10) @ [digit (n mod 10)])"

declare dec.simps [simp del]

text \<open>The indexed read \<^verbatim>\<open>v[i]\<close> and the read of \<^verbatim>\<open>v.length\<close>.\<close>

definition js_index :: "jsval \<Rightarrow> nat \<Rightarrow> error + jsval" where
  "js_index v i =
     (case v of
        JUndefined \<Rightarrow> Inl TypeError
      | JNull \<Rightarrow> Inl TypeError
      | JArr xs \<Rightarrow> Inr (if i < length xs then xs ! i else JUndefined)
      | JStr t \<Rightarrow> Inr (if i < length t then JStr [t ! i] else JUndefined)
      | JObj kvs \<Rightarrow> Inr (own_prop kvs (dec i))
      | _ \<Rightarrow> Inr JUndefined)"

definition js_length :: "jsval \<Rightarrow> error + jsval" where
  "js_length v =
     (case v of
        JUndefined \<Rightarrow> Inl TypeError
      | JNull \<Rightarrow> Inl TypeError
      | JArr xs \<Rightarrow> Inr (JNum (dec (length xs)))
      | JStr t \<Rightarrow> Inr (JNum (dec (length t)))
      | JObj kvs \<Rightarrow> Inr (own_prop kvs ''length'')
      | _ \<Rightarrow> Inr JUndefined)"

section \<open>escapeHtml\<close>

text \<open>\<^verbatim>\<open>s.replace(/c/g, r)\<close> for a one-character pattern.\<close>

definition replace_all :: "char \<Rightarrow> string \<Rightarrow> string \<Rightarrow> string" where
  "replace_all c r s = concat (map (\<lambda>x. if x = c then r else [x]) s)"

text \<open>
  \<^verbatim>\<open>function escapeHtml(s){ return (s||"").toString().replace(/&/g,'&amp;').replace(/</g,'&lt;') }\<close>
  The two replacements are \<open>escape_text\<close>: first every ampersand, then every \<open><\<close>.
\<close>

definition escape_text :: "string \<Rightarrow> string" where
  "escape_text t = replace_all CHR ''<'' ''&lt;'' (replace_all CHR ''&'' ''&amp;'' t)"

definition escapeHtml :: "jsval \<Rightarrow> error + string" where
  "escapeHtml s =
     (case toString_call (js_or s (JStr [])) of
        Inl e \<Rightarrow> Inl e
      | Inr t \<Rightarrow> Inr (escape_text t))"

section \<open>The page and the script's two globals\<close>

text \<open>
  A table row holds the markup assigned to its \<^verbatim>\<open>innerHTML\<close> and the state of the one
  checkbox that markup creates. The timers started by \<^verbatim>\<open>setInterval\<close> are listed in
  the order they were started, each with the job it polls and whether it is still
  scheduled; the position in the list is the timer's handle.
\<close>

record tr =
  innerHTML :: string
  checked :: bool

record app =
  previewJobId :: jsval
  previewData :: jsval
  previewArea_display :: string
  tbody :: "tr list"
  messageBox_value :: string
  personalizeToggle_checked :: bool
  progressContainer_display :: string
  progressFill_width :: string
  progressFill_textContent :: string
  progressText_textContent :: string
  intervals :: "(jsval \<times> bool) list"

text \<open>
  The page as it loads: the two globals as the script's first lines set them, an empty
  table, empty inputs, no timer.
\<close>

definition page_load :: app where
  "page_load =
     \<lparr>previewJobId = JNull, previewData = JArr [], previewArea_display = [], tbody = [],
      messageBox_value = [], personalizeToggle_checked = False,
      progressContainer_display = [], progressFill_width = [],
      progressFill_textContent = [], progressText_textContent = [], intervals = []\<rparr>"

text \<open>What a handler does to the outside: dialogs and network requests, in order.\<close>

datatype request =
    POST_upload string
  | GET string
  | POST_send string bool jsval

datatype effect = Alert string | Confirm string | Fetch request

text \<open>
  What \<^verbatim>\<open>await fetch(...)\<close> followed by \<^verbatim>\<open>await res.json()\<close> yields: the fetch is rejected,
  or a response arrives with its \<^verbatim>\<open>ok\<close> flag and its body, \<open>None\<close> when the body is
  not JSON and \<^verbatim>\<open>res.json()\<close> rejects.
\<close>

datatype fetch_result = Rejected | Response bool "jsval option"

text \<open>
  A handler returns the effects it caused, the exception that ended it (if one did) and
  the state it left.
\<close>

type_synonym outcome = "effect list \<times> error option \<times> app"

section \<open>populatePreviewTable\<close>

definition row_markup :: "nat \<Rightarrow> string \<Rightarrow> string \<Rightarrow> string" where
  \<open>row_markup idx fullname phone =
     ''<td><input type="checkbox" data-index="'' @ dec idx @ ''" /></td>'' @
     [CHR 0x0A] @ replicate 20 CHR '' '' @ ''<td>'' @ fullname @ ''</td>'' @
     [CHR 0x0A] @ replicate 20 CHR '' '' @ ''<td>'' @ phone @ ''</td>''\<close>

text \<open>The body of \<^verbatim>\<open>data.forEach((r, idx) => ...)\<close>, from index \<open>idx\<close> on.\<close>

fun forEach_row :: "jsval list \<Rightarrow> nat \<Rightarrow> app \<Rightarrow> error option \<times> app" where
  "forEach_row [] idx s = (None, s)"
| "forEach_row (r # rs) idx s =
     (case js_get r ''fullname'' of
        Inl e \<Rightarrow> (Some e, s)
      | Inr fn \<Rightarrow>
     (case escapeHtml fn of
        Inl e \<Rightarrow> (Some e, s)
      | Inr a \<Rightarrow>
     (case js_get r ''phone'' of
        Inl e \<Rightarrow> (Some e, s)
      | Inr ph \<Rightarrow>
     (case escapeHtml ph of
        Inl e \<Rightarrow> (Some e, s)
      | Inr b \<Rightarrow>
          forEach_row rs (Suc idx)
            (s\<lparr>tbody := tbody s @ [\<lparr>innerHTML = row_markup idx a b, checked = False\<rparr>]\<rparr>)))))"

definition populatePreviewTable :: "jsval \<Rightarrow> app \<Rightarrow> error option \<times> app" where
  "populatePreviewTable data s =
     (let s1 = s\<lparr>previewArea_display := ''block'', tbody := []\<rparr>
      in case data of
           JArr rows \<Rightarrow> forEach_row rows 0 s1
         | _ \<Rightarrow> (Some TypeError, s1))"

section \<open>The cell in the document\<close>







section \<open>The upload handler\<close>

definition uploadBtn_click :: "string list \<Rightarrow> fetch_result \<Rightarrow> fetch_result \<Rightarrow> app \<Rightarrow> outcome" where
  "uploadBtn_click files upload_res preview_res s =
     (if files = [] then ([Alert ''Pick an Excel file first''], None, s)
      else
        let e1 = [Fetch (POST_upload (hd files))] in
        case upload_res of
          Rejected \<Rightarrow> (e1, Some NetworkFailure, s)
        | Response ok body \<Rightarrow>
        (case body of
          None \<Rightarrow> (e1, Some SyntaxError, s)
        | Some j \<Rightarrow>
          if \<not> ok then
            (case js_get j ''error'' of
               Inl e \<Rightarrow> (e1, Some e, s)
             | Inr err \<Rightarrow>
            (case ToString (js_or err (JStr ''unknown'')) of
               Inl e \<Rightarrow> (e1, Some e, s)
             | Inr t \<Rightarrow> (e1 @ [Alert (''Upload error: '' @ t)], None, s)))
          else
            (case js_get j ''job_id'' of
               Inl e \<Rightarrow> (e1, Some e, s)
             | Inr jid \<Rightarrow>
            let s1 = s\<lparr>previewJobId := jid\<rparr> in
            (case ToString jid of
               Inl e \<Rightarrow> (e1, Some e, s1)
             | Inr t \<Rightarrow>
            let e2 = e1 @ [Fetch (GET (''/preview/'' @ t))] in
            (case preview_res of
               Rejected \<Rightarrow> (e2, Some NetworkFailure, s1)
             | Response pok pbody \<Rightarrow>
            (case pbody of
               None \<Rightarrow> (e2, Some SyntaxError, s1)
             | Some prev \<Rightarrow>
            (case js_get prev ''preview'' of
               Inl e \<Rightarrow> (e2, Some e, s1)
             | Inr p \<Rightarrow>
                 let s2 = s1\<lparr>previewData := js_or p (JArr [])\<rparr>;
                     (x, s3) = populatePreviewTable (previewData s2) s2
                 in (e2, x, s3))))))))"

section \<open>Selection\<close>

definition selectAllBtn_click :: "app \<Rightarrow> app" where
  "selectAllBtn_click s = s\<lparr>tbody := map (\<lambda>cb. cb\<lparr>checked := True\<rparr>) (tbody s)\<rparr>"

definition deselectAllBtn_click :: "app \<Rightarrow> app" where
  "deselectAllBtn_click s = s\<lparr>tbody := map (\<lambda>cb. cb\<lparr>checked := False\<rparr>) (tbody s)\<rparr>"

text \<open>The user ticks or clears the checkbox of row \<open>i\<close>.\<close>

definition checkbox_set :: "nat \<Rightarrow> bool \<Rightarrow> app \<Rightarrow> app" where
  "checkbox_set i b s =
     (if i < length (tbody s) then s\<lparr>tbody := (tbody s)[i := (tbody s ! i)\<lparr>checked := b\<rparr>]\<rparr> else s)"

text \<open>\<^verbatim>\<open>boxes.map((b,i) => { if (b.checked) return previewData[i]; return null; })\<close>, from index \<open>i\<close> on.\<close>

fun map_boxes :: "jsval \<Rightarrow> tr list \<Rightarrow> nat \<Rightarrow> error + jsval list" where
  "map_boxes pd [] i = Inr []"
| "map_boxes pd (b # bs) i =
     (case (if checked b then js_index pd i else Inr JNull) of
        Inl e \<Rightarrow> Inl e
      | Inr v \<Rightarrow>
          (case map_boxes pd bs (Suc i) of Inl e \<Rightarrow> Inl e | Inr vs \<Rightarrow> Inr (v # vs)))"

definition gatherTargetsFromSelection :: "bool \<Rightarrow> app \<Rightarrow> error + jsval" where
  "gatherTargetsFromSelection all s =
     (if all then Inr (previewData s)
      else
        let boxes = tbody s in
        case map_boxes (previewData s) boxes 0 of
          Inl e \<Rightarrow> Inl e
        | Inr mapped \<Rightarrow> Inr (JArr (filter ToBoolean mapped)))"

section \<open>Sending and polling\<close>

definition pollProgress :: "jsval \<Rightarrow> app \<Rightarrow> app" where
  "pollProgress jobId s = s\<lparr>intervals := intervals s @ [(jobId, True)]\<rparr>"

definition startSend :: "jsval \<Rightarrow> bool \<Rightarrow> fetch_result \<Rightarrow> app \<Rightarrow> outcome" where
  "startSend targets personalize send_res s =
     (let message = messageBox_value s in
      if message = [] then ([Alert ''Please write a message''], None, s)
      else
        let e1 = [Fetch (POST_send message personalize targets)] in
        case send_res of
          Rejected \<Rightarrow> (e1, Some NetworkFailure, s)
        | Response ok body \<Rightarrow>
        (case body of
          None \<Rightarrow> (e1, Some SyntaxError, s)
        | Some j \<Rightarrow>
          if \<not> ok then
            (case js_get j ''error'' of
               Inl e \<Rightarrow> (e1, Some e, s)
             | Inr err \<Rightarrow>
            (case ToString (js_or err (JStr ''unknown'')) of
               Inl e \<Rightarrow> (e1, Some e, s)
             | Inr t \<Rightarrow> (e1 @ [Alert (''Send error: '' @ t)], None, s)))
          else
            (case js_get j ''send_job_id'' of
               Inl e \<Rightarrow> (e1, Some e, s)
             | Inr send_job_id \<Rightarrow>
                 (e1, None, pollProgress send_job_id (s\<lparr>progressContainer_display := ''block''\<rparr>)))))"

definition no_recipients :: string where
  "no_recipients = ''No recipients selected. Send to all instead?''"

text \<open>\<open>confirmed\<close> is the user's answer to the dialog, read only when the dialog is shown.\<close>

definition sendSelectedBtn_click :: "bool \<Rightarrow> fetch_result \<Rightarrow> app \<Rightarrow> outcome" where
  "sendSelectedBtn_click confirmed send_res s =
     (case gatherTargetsFromSelection False s of
        Inl e \<Rightarrow> ([], Some e, s)
      | Inr targets \<Rightarrow>
     (case js_length targets of
        Inl e \<Rightarrow> ([], Some e, s)
      | Inr len \<Rightarrow>
          if \<not> ToBoolean len \<and> \<not> confirmed then ([Confirm no_recipients], None, s)
          else
            let e0 = (if \<not> ToBoolean len then [Confirm no_recipients] else []);
                personalize = personalizeToggle_checked s;
                (es, x, s') = startSend (if ToBoolean len then targets else previewData s)
                                personalize send_res s
            in (e0 @ es, x, s')))"

definition sendAllBtn_click :: "fetch_result \<Rightarrow> app \<Rightarrow> outcome" where
  "sendAllBtn_click send_res s =
     (let personalize = personalizeToggle_checked s
      in startSend (previewData s) personalize send_res s)"

text \<open>
  The timer callback of \<^verbatim>\<open>pollProgress\<close> runs in two parts. \<open>interval_tick h\<close> is the part
  up to the first \<^verbatim>\<open>await\<close>: timer \<open>h\<close> fires, if it is still scheduled, and the request
  goes out. \<open>interval_resume h r\<close> is the rest, run when the result \<open>r\<close> of a request
  of timer \<open>h\<close> has arrived.
\<close>

definition clearInterval :: "nat \<Rightarrow> app \<Rightarrow> app" where
  "clearInterval h s =
     (if h < length (intervals s)
      then s\<lparr>intervals := (intervals s)[h := (fst (intervals s ! h), False)]\<rparr>
      else s)"

definition scheduled :: "nat \<Rightarrow> app \<Rightarrow> bool" where
  "scheduled h s = (h < length (intervals s) \<and> snd (intervals s ! h))"

definition interval_tick :: "nat \<Rightarrow> app \<Rightarrow> outcome" where
  "interval_tick h s =
     (if scheduled h s then
        (case ToString (fst (intervals s ! h)) of
           Inl e \<Rightarrow> ([], Some e, s)
         | Inr t \<Rightarrow> ([Fetch (GET (''/progress/'' @ t))], None, s))
      else ([], None, s))"

definition emdash :: string where
  "emdash = [CHR 0xE2, CHR 0x80, CHR 0x94]"

text \<open>
  \<^verbatim>\<open>`Status: ${j.status} - Sent: ${j.sent} / ${j.total} - Failed: ${j.failed}`\<close>, the two
  dashes being U+2014.
\<close>

definition status_line :: "jsval \<Rightarrow> error + string" where
  "status_line j =
     (case js_get j ''status'' of Inl e \<Rightarrow> Inl e | Inr st \<Rightarrow>
     (case ToString st of Inl e \<Rightarrow> Inl e | Inr a \<Rightarrow>
     (case js_get j ''sent'' of Inl e \<Rightarrow> Inl e | Inr sn \<Rightarrow>
     (case ToString sn of Inl e \<Rightarrow> Inl e | Inr b \<Rightarrow>
     (case js_get j ''total'' of Inl e \<Rightarrow> Inl e | Inr tt \<Rightarrow>
     (case ToString tt of Inl e \<Rightarrow> Inl e | Inr c \<Rightarrow>
     (case js_get j ''failed'' of Inl e \<Rightarrow> Inl e | Inr fl \<Rightarrow>
     (case ToString fl of Inl e \<Rightarrow> Inl e | Inr d \<Rightarrow>
        Inr (''Status: '' @ a @ '' '' @ emdash @ '' Sent: '' @ b @ '' / '' @ c @
             '' '' @ emdash @ '' Failed: '' @ d)))))))))"

definition interval_resume :: "nat \<Rightarrow> fetch_result \<Rightarrow> app \<Rightarrow> error option \<times> app" where
  "interval_resume h r s =
     (case r of
        Rejected \<Rightarrow> (Some NetworkFailure, s)
      | Response ok body \<Rightarrow>
     (case body of
        None \<Rightarrow> (Some SyntaxError, s)
      | Some j \<Rightarrow>
        if \<not> ok then
          (None, clearInterval h (s\<lparr>progressText_textContent := ''Error fetching progress''\<rparr>))
        else
          (case js_get j ''percent'' of
             Inl e \<Rightarrow> (Some e, s)
           | Inr p \<Rightarrow>
          (case ToString p of
             Inl e \<Rightarrow> (Some e, s)
           | Inr t \<Rightarrow>
          let s1 = s\<lparr>progressFill_width := t @ ''%'', progressFill_textContent := t @ ''%''\<rparr> in
          (case status_line j of
             Inl e \<Rightarrow> (Some e, s1)
           | Inr line \<Rightarrow>
          let s2 = s1\<lparr>progressText_textContent := line\<rparr> in
          (case js_get j ''status'' of
             Inl e \<Rightarrow> (Some e, s2)
           | Inr st \<Rightarrow>
               if st = JStr ''completed'' \<or> st = JStr ''failed''
               then (None, clearInterval h s2)
               else (None, s2)))))))"

text \<open>
  A run of the page after \<^verbatim>\<open>pollProgress\<close>: timers fire and results arrive, in any
  order. \<open>run\<close> returns every request that went out, with the handle of the timer that
  sent it.
\<close>

datatype event = Tick nat | Arrive nat fetch_result

fun run :: "event list \<Rightarrow> app \<Rightarrow> (nat \<times> effect) list \<times> app" where
  "run [] s = ([], s)"
| "run (Tick h # evs) s =
     (let (es, x, s1) = interval_tick h s;
          (rest, s2) = run evs s1
      in (map (Pair h) es @ rest, s2))"
| "run (Arrive h r # evs) s = run evs (snd (interval_resume h r s))"

section \<open>Data the statements below speak of\<close>



definition three_rows :: "jsval list" where
  "three_rows =
     [JObj [(''fullname'', JStr ''Ann''), (''phone'', JStr ''555'')],
      JObj [(''fullname'', JStr ''Bo''), (''phone'', JStr ''556'')],
      JObj [(''fullname'', JStr ''Cy''), (''phone'', JStr ''557'')]]"

text \<open>The page after an upload of \<open>three_rows\<close> and a tick on the rows 0 and 2.\<close>

definition three_rows_ticked :: app where
  "three_rows_ticked =
     checkbox_set 2 True (checkbox_set 0 True
       (snd (snd (uploadBtn_click [''contacts.xlsx'']
          (Response True (Some (JObj [(''job_id'', JStr ''j1'')])))
          (Response True (Some (JObj [(''preview'', JArr three_rows)]))) page_load))))"

text \<open>The page after an upload of \<open>three_rows\<close>, a message typed, no row ticked.\<close>

definition three_rows_message :: app where
  "three_rows_message =
     (snd (snd (uploadBtn_click [''contacts.xlsx'']
          (Response True (Some (JObj [(''job_id'', JStr ''j1'')])))
          (Response True (Some (JObj [(''preview'', JArr three_rows)]))) page_load)))
     \<lparr>messageBox_value := ''Hello''\<rparr>"

text \<open>A progress response of a job of five messages, none failed.\<close>

definition progress :: "string \<Rightarrow> string \<Rightarrow> string \<Rightarrow> jsval" where
  "progress st pc snt =
     JObj [(''status'', JStr st), (''percent'', JNum pc), (''sent'', JNum snt),
           (''failed'', JNum ''0''), (''total'', JNum ''5'')]"

text \<open>A progress response all of whose displayed fields coerce to text, as numbers and strings do.\<close>

definition progress_state :: "jsval \<Rightarrow> bool" where
  "progress_state j =
     (case j of
        JObj kvs \<Rightarrow>
          plain (own_prop kvs ''percent'') \<and> plain (own_prop kvs ''status'') \<and>
          plain (own_prop kvs ''sent'') \<and> plain (own_prop kvs ''total'') \<and>
          plain (own_prop kvs ''failed'')
      | _ \<Rightarrow> False)"

text \<open>
  The page after send-all on \<open>three_rows_message\<close> was answered with the job \<^verbatim>\<open>s1\<close>: one
  timer, polling that job. Then a run of four polls, and two more seconds.
\<close>

definition polling :: app where
  "polling =
     snd (snd (sendAllBtn_click (Response True (Some (JObj [(''send_job_id'', JStr ''s1'')])))
                 three_rows_message))"

definition four_responses :: "event list" where
  "four_responses =
     [Tick 0, Arrive 0 (Response True (Some (progress ''pending'' ''0'' ''0''))),
      Tick 0, Arrive 0 (Response True (Some (progress ''running'' ''40'' ''2''))),
      Tick 0, Arrive 0 (Response True (Some (progress ''running'' ''80'' ''4''))),
      Tick 0, Arrive 0 (Response True (Some (progress ''completed'' ''100'' ''5''))),
      Tick 0, Tick 0]"

section \<open>Coercion and decimal printing\<close>

lemma join_total:
  "(\<And>x. x \<in> set xs \<Longrightarrow> x \<noteq> JUndefined \<Longrightarrow> x \<noteq> JNull \<Longrightarrow> \<exists>t. ToString x = Inr t)
     \<Longrightarrow> \<exists>t. join xs = Inr t"
proof (induction xs)
  case Nil
  show ?case by simp
next
  case (Cons x xs)
  from Cons.IH Cons.prems obtain u where u: "join xs = Inr u" by auto
  show ?case
  proof (cases "x = JUndefined \<or> x = JNull")
    case True
    with u show ?thesis by auto
  next
    case False
    with Cons.prems obtain t where "ToString x = Inr t" by auto
    with False u show ?thesis by auto
  qed
qed

lemma plain_ToString: "plain v \<Longrightarrow> \<exists>t. ToString v = Inr t"
proof (induction v)
  case (JArr xs)
  have "\<exists>t. join xs = Inr t"
    using JArr by (intro join_total) (auto simp: list_all_iff)
  then show ?case by simp
qed auto

lemma replace_all_notin: "c \<notin> set r \<Longrightarrow> c \<notin> set (replace_all c r s)"
  by (induction s) (auto simp: replace_all_def)

lemma digit_in_digits: "n < 10 \<Longrightarrow> digit n \<in> set ''0123456789''"
  unfolding digit_def by (rule nth_mem) simp

lemma digit_zero:
  assumes "n < 10"
  shows "digit n = CHR ''0'' \<longleftrightarrow> n = 0"
proof -
  let ?ds = "''0123456789''"
  have "distinct ?ds" by simp
  then have "(?ds ! n = ?ds ! 0) = (n = 0)"
    using assms by (intro nth_eq_iff_index_eq) simp_all
  then show ?thesis by (simp add: digit_def)
qed

lemma dec_nonempty: "dec n \<noteq> []"
  by (subst dec.simps) simp

lemma dec_last: "last (dec n) = digit (n mod 10)"
  by (subst dec.simps) simp

lemma dec_not_NaN: "dec n \<noteq> ''NaN''"
proof
  assume "dec n = ''NaN''"
  then have "last (dec n) = CHR ''N''" by simp
  then have "digit (n mod 10) = CHR ''N''" by (simp add: dec_last)
  moreover have "digit (n mod 10) \<in> set ''0123456789''" by (rule digit_in_digits) simp
  ultimately show False by auto
qed

lemma dec_zero: "dec n = ''0'' \<longleftrightarrow> n = 0"
proof (cases "n < 10")
  case True
  then show ?thesis using digit_zero[OF True] by (subst dec.simps) simp
next
  case False
  have "length (dec n) = length (dec (n div 10)) + 1"
    using False by (subst dec.simps) simp
  moreover have "length (dec (n div 10)) > 0" using dec_nonempty by simp
  ultimately have "length (dec n) \<noteq> 1" by simp
  then have "dec n \<noteq> ''0''" by auto
  with False show ?thesis by auto
qed

lemma ToBoolean_dec: "ToBoolean (JNum (dec n)) \<longleftrightarrow> n \<noteq> 0"
  by (simp add: dec_zero dec_not_NaN)

section \<open>Escaping and rendering\<close>

lemma escape_text_no_lt: "CHR ''<'' \<notin> set (escape_text t)"
  unfolding escape_text_def by (rule replace_all_notin) simp


lemma escapeHtml_char:
  "escapeHtml v =
     (if ToBoolean v then (case ToString v of Inl e \<Rightarrow> Inl e | Inr t \<Rightarrow> Inr (escape_text t))
      else Inr [])"
  by (cases v) (auto simp: escapeHtml_def js_or_def toString_call_def escape_text_def replace_all_def)

lemma escapeHtml_plain:
  assumes "plain v"
  shows "\<exists>t. escapeHtml v = Inr t \<and> CHR ''<'' \<notin> set t"
proof -
  from assms obtain u where "ToString v = Inr u" using plain_ToString by blast
  then show ?thesis by (simp add: escapeHtml_char escape_text_no_lt)
qed















text \<open>
  C10 (as amended). \<^verbatim>\<open>escapeHtml\<close> maps every falsy value (\<^verbatim>\<open>undefined\<close>, \<^verbatim>\<open>null\<close>,
  \<^verbatim>\<open>false\<close>, zero, \<^verbatim>\<open>NaN\<close>, the empty string) to the empty string and coerces every other
  value to a string before escaping; it returns a string for every value whose string
  coercion cannot throw. A row whose fullname or phone is missing is rendered with an
  empty cell.
\<close>

theorem escapeHtml_falsy_empty_else_coerced:
  "escapeHtml v =
     (if ToBoolean v then (case ToString v of Inl e \<Rightarrow> Inl e | Inr t \<Rightarrow> Inr (escape_text t))
      else Inr []) \<and>
   escapeHtml JNull = Inr [] \<and> escapeHtml JUndefined = Inr [] \<and>
   (plain w \<longrightarrow> (\<exists>t. escapeHtml w = Inr t)) \<and>
   (map_of kvs ''fullname'' = None \<and> plain (own_prop kvs ''phone'') \<longrightarrow>
      (\<exists>b. escapeHtml (own_prop kvs ''phone'') = Inr b \<and>
           populatePreviewTable (JArr [JObj kvs]) s =
             (None, s\<lparr>previewArea_display := ''block'',
                      tbody := [\<lparr>innerHTML = row_markup 0 [] b, checked = False\<rparr>]\<rparr>))) \<and>
   (map_of kvs' ''phone'' = None \<and> plain (own_prop kvs' ''fullname'') \<longrightarrow>
      (\<exists>a. escapeHtml (own_prop kvs' ''fullname'') = Inr a \<and>
           populatePreviewTable (JArr [JObj kvs']) s =
             (None, s\<lparr>previewArea_display := ''block'',
                      tbody := [\<lparr>innerHTML = row_markup 0 a [], checked = False\<rparr>]\<rparr>)))"
proof -
  have e: "escapeHtml JUndefined = Inr []" by (simp add: escapeHtml_char)
  have A: "\<exists>b. escapeHtml (own_prop kvs ''phone'') = Inr b \<and>
           populatePreviewTable (JArr [JObj kvs]) s =
             (None, s\<lparr>previewArea_display := ''block'',
                      tbody := [\<lparr>innerHTML = row_markup 0 [] b, checked = False\<rparr>]\<rparr>)"
    if "map_of kvs ''fullname'' = None" "plain (own_prop kvs ''phone'')"
  proof -
    from escapeHtml_plain[OF that(2)] obtain b where b: "escapeHtml (own_prop kvs ''phone'') = Inr b"
      by blast
    have "own_prop kvs ''fullname'' = JUndefined" using that(1) by (simp add: own_prop_def)
    then show ?thesis using b e by (simp add: populatePreviewTable_def js_get_def)
  qed
  have B: "\<exists>a. escapeHtml (own_prop kvs' ''fullname'') = Inr a \<and>
           populatePreviewTable (JArr [JObj kvs']) s =
             (None, s\<lparr>previewArea_display := ''block'',
                      tbody := [\<lparr>innerHTML = row_markup 0 a [], checked = False\<rparr>]\<rparr>)"
    if "map_of kvs' ''phone'' = None" "plain (own_prop kvs' ''fullname'')"
  proof -
    from escapeHtml_plain[OF that(2)] obtain a where a: "escapeHtml (own_prop kvs' ''fullname'') = Inr a"
      by blast
    have "own_prop kvs' ''phone'' = JUndefined" using that(1) by (simp add: own_prop_def)
    then show ?thesis using a e by (simp add: populatePreviewTable_def js_get_def)
  qed
  have C: "plain w \<longrightarrow> (\<exists>t. escapeHtml w = Inr t)" using escapeHtml_plain by blast
  have D: "escapeHtml JNull = Inr []" by (simp add: escapeHtml_char)
  show ?thesis using escapeHtml_char[of v] A B C D e by blast
qed

text \<open>C10 at a string with a \<open><\<close>, and at two rows with one field missing.\<close>

theorem escapeHtml_witness:
  "plain (JStr ''a<b'') \<and> escapeHtml (JStr ''a<b'') = Inr ''a&lt;b'' \<and>
   map_of [(''phone'', JStr ''555'')] ''fullname'' = None \<and>
   map_of [(''fullname'', JStr ''Ann'')] ''phone'' = None \<and>
   populatePreviewTable (JArr [JObj [(''phone'', JStr ''555'')]]) page_load =
     (None, page_load\<lparr>previewArea_display := ''block'',
                      tbody := [\<lparr>innerHTML = row_markup 0 [] ''555'', checked = False\<rparr>]\<rparr>) \<and>
   populatePreviewTable (JArr [JObj [(''fullname'', JStr ''Ann'')]]) page_load =
     (None, page_load\<lparr>previewArea_display := ''block'',
                      tbody := [\<lparr>innerHTML = row_markup 0 ''Ann'' [], checked = False\<rparr>]\<rparr>)"
  using escapeHtml_falsy_empty_else_coerced[of "JStr ''a<b''" "JStr ''a<b''"
          "[(''phone'', JStr ''555'')]" page_load "[(''fullname'', JStr ''Ann'')]"]
  by (auto simp: own_prop_def escapeHtml_def js_or_def toString_call_def escape_text_def
        replace_all_def)

text \<open>
  C10 as stated fails: \<^verbatim>\<open>false\<close> and \<^verbatim>\<open>0\<close> are neither \<^verbatim>\<open>null\<close> nor \<^verbatim>\<open>undefined\<close>, yet they
  become the empty string and not their \<^verbatim>\<open>toString\<close>; and for an object with an own
  \<^verbatim>\<open>toString\<close> property the call throws.
\<close>

theorem escapeHtml_false_and_zero_become_empty:
  "escapeHtml (JBool False) = Inr [] \<and> toString_call (JBool False) = Inr ''false'' \<and>
   escapeHtml (JNum ''0'') = Inr [] \<and> toString_call (JNum ''0'') = Inr ''0'' \<and>
   escapeHtml (JObj [(''toString'', JNull)]) = Inl TypeError"
  by (simp add: escapeHtml_def js_or_def toString_call_def escape_text_def replace_all_def)

section \<open>Selection\<close>

lemma map_boxes_array:
  "\<exists>vs. map_boxes (JArr rows) boxes i = Inr vs \<and> set (filter ToBoolean vs) \<subseteq> set rows \<and>
        (list_all ToBoolean rows \<longrightarrow>
           filter ToBoolean vs = map fst (filter snd (zip (drop i rows) (map checked boxes))))"
proof (induction boxes arbitrary: i)
  case Nil
  show ?case by simp
next
  case (Cons b bs)
  from Cons[of "Suc i"] obtain vs where
    vs: "map_boxes (JArr rows) bs (Suc i) = Inr vs"
    and sub: "set (filter ToBoolean vs) \<subseteq> set rows"
    and eq: "list_all ToBoolean rows \<longrightarrow>
           filter ToBoolean vs = map fst (filter snd (zip (drop (Suc i) rows) (map checked bs)))"
    by blast
  let ?v = "if checked b then (if i < length rows then rows ! i else JUndefined) else JNull"
  have run: "map_boxes (JArr rows) (b # bs) i = Inr (?v # vs)"
    using vs by (simp add: js_index_def)
  have s2: "set (filter ToBoolean (?v # vs)) \<subseteq> set rows"
    using sub by auto
  have e2: "filter ToBoolean (?v # vs) =
              map fst (filter snd (zip (drop i rows) (map checked (b # bs))))"
    if all: "list_all ToBoolean rows"
  proof (cases "i < length rows")
    case True
    then have d: "drop i rows = rows ! i # drop (Suc i) rows"
      by (simp add: Cons_nth_drop_Suc)
    have "ToBoolean (rows ! i)" using all True by (simp add: list_all_length)
    then show ?thesis using eq all d True by simp
  next
    case False
    then have "drop i rows = []" "drop (Suc i) rows = []" by simp_all
    then show ?thesis using eq all False by simp
  qed
  from run s2 e2 show ?case by blast
qed

lemma subseq_checked: "subseq (map fst (filter snd (zip xs bs))) xs"
proof (induction xs arbitrary: bs)
  case Nil
  show ?case by simp
next
  case (Cons x xs)
  show ?case
  proof (cases bs)
    case Nil
    then show ?thesis by simp
  next
    case (Cons c cs)
    with Cons.IH[of cs] show ?thesis by auto
  qed
qed

lemma gather_array:
  assumes "previewData s = JArr rows"
  shows "\<exists>sel. gatherTargetsFromSelection False s = Inr (JArr sel) \<and> set sel \<subseteq> set rows \<and>
           list_all ToBoolean sel \<and>
           (list_all ToBoolean rows \<longrightarrow>
              sel = map fst (filter snd (zip rows (map checked (tbody s)))))"
proof -
  from map_boxes_array[of rows "tbody s" 0] obtain vs where
    "map_boxes (JArr rows) (tbody s) 0 = Inr vs"
    "set (filter ToBoolean vs) \<subseteq> set rows"
    "list_all ToBoolean rows \<longrightarrow>
           filter ToBoolean vs = map fst (filter snd (zip (drop 0 rows) (map checked (tbody s))))"
    by blast
  then show ?thesis using assms
    by (auto simp: gatherTargetsFromSelection_def list_all_iff)
qed

text \<open>
  C9. \<^verbatim>\<open>gatherTargetsFromSelection(true)\<close> returns the current \<^verbatim>\<open>previewData\<close> whatever
  the checkboxes are, also after select-all, deselect-all or a single tick; select-all
  and deselect-all set every checkbox alike.
\<close>

theorem gather_all_ignores_checkboxes:
  "gatherTargetsFromSelection True s = Inr (previewData s) \<and>
   gatherTargetsFromSelection True (s\<lparr>tbody := boxes\<rparr>) = Inr (previewData s) \<and>
   gatherTargetsFromSelection True (selectAllBtn_click s) = Inr (previewData s) \<and>
   gatherTargetsFromSelection True (deselectAllBtn_click s) = Inr (previewData s) \<and>
   gatherTargetsFromSelection True (checkbox_set i b s) = Inr (previewData s) \<and>
   map checked (tbody (selectAllBtn_click s)) = replicate (length (tbody s)) True \<and>
   map checked (tbody (deselectAllBtn_click s)) = replicate (length (tbody s)) False"
  by (simp add: gatherTargetsFromSelection_def selectAllBtn_click_def deselectAllBtn_click_def
       checkbox_set_def map_replicate_const comp_def)

text \<open>
  C4. With \<^verbatim>\<open>all = false\<close>, over a preview sequence of rows (a row is an object, and every
  object is truthy) and any state of the checkboxes, \<^verbatim>\<open>gatherTargetsFromSelection\<close> returns
  exactly the rows whose checkbox is checked: a subsequence of the preview in its
  order, with no \<^verbatim>\<open>null\<close> and no \<^verbatim>\<open>undefined\<close> in it.
\<close>

theorem gather_selected_is_checked_subsequence:
  assumes "previewData s = JArr rows" "list_all ToBoolean rows"
  shows "gatherTargetsFromSelection False s =
           Inr (JArr (map fst (filter snd (zip rows (map checked (tbody s)))))) \<and>
         subseq (map fst (filter snd (zip rows (map checked (tbody s))))) rows \<and>
         JNull \<notin> set (map fst (filter snd (zip rows (map checked (tbody s))))) \<and>
         JUndefined \<notin> set (map fst (filter snd (zip rows (map checked (tbody s)))))"
proof -
  let ?sel = "map fst (filter snd (zip rows (map checked (tbody s))))"
  from gather_array[OF assms(1)] assms(2)
  have g: "gatherTargetsFromSelection False s = Inr (JArr ?sel)" and t: "list_all ToBoolean ?sel"
    by auto
  have "JNull \<notin> set ?sel" "JUndefined \<notin> set ?sel"
    using t unfolding list_all_iff by fastforce+
  with g subseq_checked[of rows "map checked (tbody s)"] show ?thesis by blast
qed

lemma three_rows_ticked_state:
  "previewData three_rows_ticked = JArr three_rows \<and>
   map checked (tbody three_rows_ticked) = [True, False, True]"
  by (simp add: three_rows_ticked_def three_rows_def uploadBtn_click_def js_get_def own_prop_def
      js_or_def populatePreviewTable_def escapeHtml_def toString_call_def checkbox_set_def page_load_def)

text \<open>C4 on a three-row preview with the rows 0 and 2 ticked: the rows 0 and 2, in that order.\<close>

theorem gather_selected_witness:
  "previewData three_rows_ticked = JArr three_rows \<and> list_all ToBoolean three_rows \<and>
   gatherTargetsFromSelection False three_rows_ticked = Inr (JArr [three_rows ! 0, three_rows ! 2])"
proof -
  have h1: "previewData three_rows_ticked = JArr three_rows"
    using three_rows_ticked_state by simp
  have h2: "list_all ToBoolean three_rows" by (simp add: three_rows_def)
  have c: "map checked (tbody three_rows_ticked) = [True, False, True]"
    using three_rows_ticked_state by simp
  from gather_selected_is_checked_subsequence[OF h1 h2]
  have "gatherTargetsFromSelection False three_rows_ticked =
          Inr (JArr (map fst (filter snd (zip three_rows [True, False, True]))))"
    using c by simp
  then show ?thesis using h1 h2 by (simp add: three_rows_def)
qed

section \<open>Sending\<close>

lemma gather_checked:
  assumes "previewData s = JArr rows" "list_all ToBoolean rows"
  shows "gatherTargetsFromSelection False s =
           Inr (JArr (map fst (filter snd (zip rows (map checked (tbody s))))))"
  using gather_array[OF assms(1)] assms(2) by auto

lemma three_rows_ticked_gather:
  assumes "previewData s = previewData three_rows_ticked" "tbody s = tbody three_rows_ticked"
  shows "gatherTargetsFromSelection False s = Inr (JArr [three_rows ! 0, three_rows ! 2])"
proof -
  have 1: "previewData s = JArr three_rows" using assms three_rows_ticked_state by simp
  have 2: "list_all ToBoolean three_rows" by (simp add: three_rows_def)
  have 3: "map checked (tbody s) = [True, False, True]" using assms three_rows_ticked_state by simp
  show ?thesis unfolding gather_checked[OF 1 2] 3 by (simp add: three_rows_def)
qed

lemma startSend_empty_message:
  "messageBox_value s = [] \<Longrightarrow> startSend t p r s = ([Alert ''Please write a message''], None, s)"
  by (simp add: startSend_def)

lemma startSend_request:
  assumes "messageBox_value s \<noteq> []"
  shows "\<exists>rest. fst (startSend t p r s) = Fetch (POST_send (messageBox_value s) p t) # rest \<and>
           (\<forall>q. Fetch q \<notin> set rest)"
  using assms
  by (auto simp: startSend_def Let_def split: fetch_result.splits option.splits sum.splits)

lemma startSend_fetches:
  assumes "Fetch q \<in> set (fst (startSend t p r s))"
  shows "q = POST_send (messageBox_value s) p t \<and> messageBox_value s \<noteq> []"
proof (cases "messageBox_value s = []")
  case True
  with assms show ?thesis by (simp add: startSend_empty_message)
next
  case False
  from startSend_request[OF False, of t p r] assms False show ?thesis by auto
qed

lemma js_length_array: "js_length (JArr xs) = Inr (JNum (dec (length xs)))"
  by (simp add: js_length_def)

lemma sendSelected_cases:
  assumes "gatherTargetsFromSelection False s = Inr (JArr sel)"
  shows "sendSelectedBtn_click c r s =
           (if sel \<noteq> [] then startSend (JArr sel) (personalizeToggle_checked s) r s
            else if c then
              (let (es, x, s') = startSend (previewData s) (personalizeToggle_checked s) r s
               in (Confirm no_recipients # es, x, s'))
            else ([Confirm no_recipients], None, s))"
proof -
  have len: "js_length (JArr sel) = Inr (JNum (dec (length sel)))" by (rule js_length_array)
  have tb: "ToBoolean (JNum (dec (length sel))) \<longleftrightarrow> sel \<noteq> []"
    by (simp add: dec_zero dec_not_NaN)
  show ?thesis
    unfolding sendSelectedBtn_click_def assms len sum.case tb
    by (simp add: Let_def split: prod.splits)
qed

lemma gather_result:
  "gatherTargetsFromSelection False s = Inr v \<Longrightarrow> \<exists>sel. v = JArr sel"
  by (auto simp: gatherTargetsFromSelection_def split: sum.splits)

lemma sendSelected_empty_message:
  assumes "messageBox_value s = []"
  shows "(\<forall>q. Fetch q \<notin> set (fst (sendSelectedBtn_click c r s))) \<and>
         snd (snd (sendSelectedBtn_click c r s)) = s"
proof (cases "gatherTargetsFromSelection False s")
  case (Inl e)
  then show ?thesis by (simp add: sendSelectedBtn_click_def)
next
  case (Inr v)
  with gather_result[OF Inr] obtain sel where "gatherTargetsFromSelection False s = Inr (JArr sel)"
    by auto
  from sendSelected_cases[OF this] assms show ?thesis
    by (simp add: startSend_empty_message)
qed

text \<open>
  C5 (as amended). With an empty message, \<^verbatim>\<open>startSend\<close> shows the notice and returns before
  any request, leaving the state as it was; so does send-all. Send-selected issues no
  request either and changes nothing. It shows the notice too, after the confirmation
  dialog when nothing is selected; only when the user declines that dialog does it stop
  with the dialog alone.
\<close>

theorem empty_message_sends_nothing:
  assumes "messageBox_value s = []"
  shows "startSend t p r s = ([Alert ''Please write a message''], None, s) \<and>
         sendAllBtn_click r s = ([Alert ''Please write a message''], None, s) \<and>
         (\<forall>q. Fetch q \<notin> set (fst (sendSelectedBtn_click c r s))) \<and>
         snd (snd (sendSelectedBtn_click c r s)) = s \<and>
         (gatherTargetsFromSelection False s = Inr (JArr sel) \<longrightarrow>
            fst (sendSelectedBtn_click c r s) =
              (if sel \<noteq> [] then [Alert ''Please write a message'']
               else if c then [Confirm no_recipients, Alert ''Please write a message'']
               else [Confirm no_recipients]))"
proof -
  have "fst (sendSelectedBtn_click c r s) =
              (if sel \<noteq> [] then [Alert ''Please write a message'']
               else if c then [Confirm no_recipients, Alert ''Please write a message'']
               else [Confirm no_recipients])"
    if "gatherTargetsFromSelection False s = Inr (JArr sel)"
    using sendSelected_cases[OF that] assms by (simp add: startSend_empty_message)
  then show ?thesis
    using assms sendSelected_empty_message[OF assms, of c r]
    by (simp add: startSend_empty_message sendAllBtn_click_def)
qed

text \<open>C5 on the page with two rows ticked and no message typed.\<close>

theorem empty_message_witness:
  "messageBox_value three_rows_ticked = [] \<and>
   gatherTargetsFromSelection False three_rows_ticked = Inr (JArr [three_rows ! 0, three_rows ! 2]) \<and>
   sendAllBtn_click (Response True (Some (JObj [(''send_job_id'', JStr ''s1'')]))) three_rows_ticked =
     ([Alert ''Please write a message''], None, three_rows_ticked) \<and>
   fst (sendSelectedBtn_click True (Response True (Some (JObj [(''send_job_id'', JStr ''s1'')])))
          three_rows_ticked) = [Alert ''Please write a message'']"
proof -
  have h: "messageBox_value three_rows_ticked = []"
    by (simp add: three_rows_ticked_def three_rows_def uploadBtn_click_def js_get_def own_prop_def
      js_or_def populatePreviewTable_def escapeHtml_def toString_call_def checkbox_set_def page_load_def)
  have g: "gatherTargetsFromSelection False three_rows_ticked = Inr (JArr [three_rows ! 0, three_rows ! 2])"
    by (rule three_rows_ticked_gather) simp_all
  from empty_message_sends_nothing[OF h, of _ _ "Response True (Some (JObj [(''send_job_id'', JStr ''s1'')]))"
         True "[three_rows ! 0, three_rows ! 2]"]
  show ?thesis using h g by simp
qed

text \<open>
  C7. When send-selected resolves to no target, the user is asked first. Declined, the
  handler stops with no request and no change. Accepted, it goes on as send-all does:
  every request it issues carries the whole \<^verbatim>\<open>previewData\<close> as targets, and with a
  message typed that request is issued right after the dialog.
\<close>

theorem selected_nothing_asks_before_sending_all:
  assumes "gatherTargetsFromSelection False s = Inr (JArr [])"
  shows "sendSelectedBtn_click False r s = ([Confirm no_recipients], None, s) \<and>
         sendSelectedBtn_click True r s =
           (let (es, x, s') = startSend (previewData s) (personalizeToggle_checked s) r s
            in (Confirm no_recipients # es, x, s')) \<and>
         (\<forall>q. Fetch q \<in> set (fst (sendSelectedBtn_click True r s)) \<longrightarrow>
              q = POST_send (messageBox_value s) (personalizeToggle_checked s) (previewData s)) \<and>
         (messageBox_value s \<noteq> [] \<longrightarrow>
            (\<exists>rest. fst (sendSelectedBtn_click True r s) =
               Confirm no_recipients #
               Fetch (POST_send (messageBox_value s) (personalizeToggle_checked s) (previewData s)) # rest \<and>
               (\<forall>q. Fetch q \<notin> set rest)))"
proof -
  note c = sendSelected_cases[OF assms]
  have 1: "sendSelectedBtn_click False r s = ([Confirm no_recipients], None, s)"
    using c[of False r] by simp
  have 2: "sendSelectedBtn_click True r s =
           (let (es, x, s') = startSend (previewData s) (personalizeToggle_checked s) r s
            in (Confirm no_recipients # es, x, s'))"
    using c[of True r] by simp
  then have f: "fst (sendSelectedBtn_click True r s) =
           Confirm no_recipients # fst (startSend (previewData s) (personalizeToggle_checked s) r s)"
    by (simp add: Let_def split: prod.splits)
  have 3: "q = POST_send (messageBox_value s) (personalizeToggle_checked s) (previewData s)"
    if "Fetch q \<in> set (fst (sendSelectedBtn_click True r s))" for q
    using that f startSend_fetches[of q "previewData s" "personalizeToggle_checked s" r s] by simp
  have 4: "\<exists>rest. fst (sendSelectedBtn_click True r s) =
               Confirm no_recipients #
               Fetch (POST_send (messageBox_value s) (personalizeToggle_checked s) (previewData s)) # rest \<and>
               (\<forall>q. Fetch q \<notin> set rest)"
    if "messageBox_value s \<noteq> []"
    using startSend_request[OF that, of "previewData s" "personalizeToggle_checked s" r] f by simp
  from 1 2 3 4 show ?thesis by blast
qed

lemma three_rows_message_state:
  "previewData three_rows_message = JArr three_rows \<and>
   map checked (tbody three_rows_message) = [False, False, False] \<and>
   messageBox_value three_rows_message = ''Hello'' \<and>
   personalizeToggle_checked three_rows_message = False \<and>
   intervals three_rows_message = [] \<and>
   progressText_textContent three_rows_message = [] \<and>
   progressFill_textContent three_rows_message = []"
  by (simp add: three_rows_message_def three_rows_def uploadBtn_click_def js_get_def own_prop_def
      js_or_def populatePreviewTable_def escapeHtml_def toString_call_def page_load_def)

lemma three_rows_message_gather:
  "gatherTargetsFromSelection False three_rows_message = Inr (JArr [])"
proof -
  from three_rows_message_state obtain b0 b1 b2 where
    "tbody three_rows_message = [b0, b1, b2]" "\<not> checked b0" "\<not> checked b1" "\<not> checked b2"
    by (auto simp: map_eq_Cons_conv)
  then show ?thesis by (simp add: gatherTargetsFromSelection_def)
qed

text \<open>
  C5 as stated fails: with three rows uploaded, none ticked and no message typed,
  send-selected asks whether to send to all; declined, it returns at once. No request
  went out, but the notice about the message was never shown.
\<close>

theorem declined_confirmation_shows_no_notice:
  "messageBox_value (three_rows_message\<lparr>messageBox_value := []\<rparr>) = [] \<and>
   sendSelectedBtn_click False Rejected (three_rows_message\<lparr>messageBox_value := []\<rparr>) =
     ([Confirm no_recipients], None, three_rows_message\<lparr>messageBox_value := []\<rparr>) \<and>
   Alert ''Please write a message'' \<notin>
     set (fst (sendSelectedBtn_click False Rejected (three_rows_message\<lparr>messageBox_value := []\<rparr>)))"
proof -
  let ?s = "three_rows_message\<lparr>messageBox_value := []\<rparr>"
  have "gatherTargetsFromSelection False ?s = gatherTargetsFromSelection False three_rows_message"
    by (simp add: gatherTargetsFromSelection_def)
  then have g: "gatherTargetsFromSelection False ?s = Inr (JArr [])"
    using three_rows_message_gather by simp
  show ?thesis using sendSelected_cases[OF g, of False Rejected] by simp
qed

text \<open>C7 on the page with three rows, none ticked, and a message typed.\<close>

theorem selected_nothing_witness:
  "gatherTargetsFromSelection False three_rows_message = Inr (JArr []) \<and>
   messageBox_value three_rows_message \<noteq> [] \<and>
   sendSelectedBtn_click False Rejected three_rows_message =
     ([Confirm no_recipients], None, three_rows_message) \<and>
   fst (sendSelectedBtn_click True Rejected three_rows_message) =
     [Confirm no_recipients, Fetch (POST_send ''Hello'' False (JArr three_rows))]"
proof -
  note st = three_rows_message_state
  have m: "messageBox_value three_rows_message \<noteq> []" using st by simp
  from selected_nothing_asks_before_sending_all[OF three_rows_message_gather, of Rejected]
  have "sendSelectedBtn_click False Rejected three_rows_message =
          ([Confirm no_recipients], None, three_rows_message)"
    and "sendSelectedBtn_click True Rejected three_rows_message =
           (let (es, x, s') = startSend (previewData three_rows_message)
                                (personalizeToggle_checked three_rows_message) Rejected three_rows_message
            in (Confirm no_recipients # es, x, s'))"
    by simp_all
  then show ?thesis using three_rows_message_gather m st
    by (simp add: startSend_def Let_def)
qed

text \<open>
  C8. While \<^verbatim>\<open>previewData\<close> is the sequence \<open>rows\<close>, every request that send-selected
  issues has an array of elements of \<open>rows\<close> as targets, every request that send-all
  issues has \<open>rows\<close> itself, and send-all issues it whenever a message is typed.
\<close>

theorem send_targets_are_preview_rows:
  assumes "previewData s = JArr rows"
  shows "(\<forall>m p t. Fetch (POST_send m p t) \<in> set (fst (sendSelectedBtn_click c r s)) \<longrightarrow>
            (\<exists>ts. t = JArr ts \<and> set ts \<subseteq> set rows)) \<and>
         (\<forall>m p t. Fetch (POST_send m p t) \<in> set (fst (sendAllBtn_click r s)) \<longrightarrow> t = JArr rows) \<and>
         (messageBox_value s \<noteq> [] \<longrightarrow>
            (\<exists>rest. fst (sendAllBtn_click r s) =
               Fetch (POST_send (messageBox_value s) (personalizeToggle_checked s) (JArr rows)) # rest))"
proof -
  from gather_array[OF assms] obtain sel where
    g: "gatherTargetsFromSelection False s = Inr (JArr sel)" and sub: "set sel \<subseteq> set rows"
    by blast
  have 1: "\<exists>ts. t = JArr ts \<and> set ts \<subseteq> set rows"
    if "Fetch (POST_send m p t) \<in> set (fst (sendSelectedBtn_click c r s))" for m p t
  proof (cases "sel \<noteq> []")
    case True
    with sendSelected_cases[OF g, of c r] that
    have "Fetch (POST_send m p t) \<in> set (fst (startSend (JArr sel) (personalizeToggle_checked s) r s))"
      by simp
    from startSend_fetches[OF this] sub show ?thesis by simp
  next
    case False
    show ?thesis
    proof (cases c)
      case True
      with False sendSelected_cases[OF g, of c r] that
      have "Fetch (POST_send m p t) \<in>
              set (fst (startSend (previewData s) (personalizeToggle_checked s) r s))"
        by (simp add: Let_def split: prod.splits)
      from startSend_fetches[OF this] assms show ?thesis by simp
    next
      case c: False
      with False sendSelected_cases[OF g, of c r] that show ?thesis by simp
    qed
  qed
  have 2: "t = JArr rows" if "Fetch (POST_send m p t) \<in> set (fst (sendAllBtn_click r s))" for m p t
    using startSend_fetches[of "POST_send m p t" "previewData s" "personalizeToggle_checked s" r s]
      that assms by (simp add: sendAllBtn_click_def)
  have 3: "\<exists>rest. fst (sendAllBtn_click r s) =
               Fetch (POST_send (messageBox_value s) (personalizeToggle_checked s) (JArr rows)) # rest"
    if "messageBox_value s \<noteq> []"
    using startSend_request[OF that, of "previewData s" "personalizeToggle_checked s" r] assms
    by (auto simp: sendAllBtn_click_def)
  from 1 2 3 show ?thesis by blast
qed

text \<open>C8 on the page with the rows 0 and 2 ticked and a message typed.\<close>

theorem send_targets_witness:
  "previewData (three_rows_ticked\<lparr>messageBox_value := ''Hello''\<rparr>) = JArr three_rows \<and>
   fst (sendSelectedBtn_click False Rejected (three_rows_ticked\<lparr>messageBox_value := ''Hello''\<rparr>)) =
     [Fetch (POST_send ''Hello'' False (JArr [three_rows ! 0, three_rows ! 2]))] \<and>
   set [three_rows ! 0, three_rows ! 2] \<subseteq> set three_rows \<and>
   fst (sendAllBtn_click Rejected (three_rows_ticked\<lparr>messageBox_value := ''Hello''\<rparr>)) =
     [Fetch (POST_send ''Hello'' False (JArr three_rows))]"
proof -
  let ?s = "three_rows_ticked\<lparr>messageBox_value := ''Hello''\<rparr>"
  have h: "previewData ?s = JArr three_rows" using three_rows_ticked_state by simp
  have p: "personalizeToggle_checked ?s = False"
    by (simp add: three_rows_ticked_def three_rows_def uploadBtn_click_def js_get_def own_prop_def
      js_or_def populatePreviewTable_def escapeHtml_def toString_call_def checkbox_set_def page_load_def)
  have g: "gatherTargetsFromSelection False ?s = Inr (JArr [three_rows ! 0, three_rows ! 2])"
    by (rule three_rows_ticked_gather) simp_all
  have a: "fst (sendSelectedBtn_click False Rejected ?s) =
     [Fetch (POST_send ''Hello'' False (JArr [three_rows ! 0, three_rows ! 2]))]"
    using sendSelected_cases[OF g, of False Rejected] p by (simp add: startSend_def Let_def)
  have b: "fst (sendAllBtn_click Rejected ?s) = [Fetch (POST_send ''Hello'' False (JArr three_rows))]"
    using h p by (simp add: sendAllBtn_click_def startSend_def Let_def)
  from send_targets_are_preview_rows[OF h, of False Rejected]
  have every: "\<forall>m p t. Fetch (POST_send m p t) \<in> set (fst (sendSelectedBtn_click False Rejected ?s)) \<longrightarrow>
            (\<exists>ts. t = JArr ts \<and> set ts \<subseteq> set three_rows)"
    by blast
  have "Fetch (POST_send ''Hello'' False (JArr [three_rows ! 0, three_rows ! 2]))
          \<in> set (fst (sendSelectedBtn_click False Rejected ?s))"
    using a by simp
  with every
  have "\<exists>ts. JArr [three_rows ! 0, three_rows ! 2] = JArr ts \<and> set ts \<subseteq> set three_rows"
    by blast
  then have "set [three_rows ! 0, three_rows ! 2] \<subseteq> set three_rows" by simp
  with h a b show ?thesis by blast
qed

section \<open>Upload failures\<close>

lemma upload_failure_aborts:
  assumes "files \<noteq> []"
  shows "snd (snd (uploadBtn_click files (Response False body) pv s)) = s \<and>
         (\<forall>u. Fetch (GET u) \<notin> set (fst (uploadBtn_click files (Response False body) pv s)))"
  using assms
  by (auto simp: uploadBtn_click_def Let_def split: option.splits sum.splits)

lemma upload_failure_alert:
  assumes "files \<noteq> []" "ToString (js_or (own_prop kvs ''error'') (JStr ''unknown'')) = Inr t"
  shows "uploadBtn_click files (Response False (Some (JObj kvs))) pv s =
           ([Fetch (POST_upload (hd files)), Alert (''Upload error: '' @ t)], None, s)"
  using assms by (simp add: uploadBtn_click_def Let_def js_get_def)

text \<open>
  The branch of lines 13 to 15, where the handler reaches it. After a non-success answer
  to the upload, whatever its body, the state is as it was and no preview is fetched.
  When the body is a JSON object, the alert shows its \<^verbatim>\<open>error\<close> verbatim, and
  \<^verbatim>\<open>unknown\<close> when it has none.
\<close>

theorem upload_failure_shows_error_and_changes_nothing:
  assumes "files \<noteq> []"
  shows "snd (snd (uploadBtn_click files (Response False body) pv s)) = s \<and>
         (\<forall>u. Fetch (GET u) \<notin> set (fst (uploadBtn_click files (Response False body) pv s))) \<and>
         (map_of kvs ''error'' = Some (JStr msg) \<and> msg \<noteq> [] \<longrightarrow>
            uploadBtn_click files (Response False (Some (JObj kvs))) pv s =
              ([Fetch (POST_upload (hd files)), Alert (''Upload error: '' @ msg)], None, s)) \<and>
         (map_of kvs' ''error'' = None \<longrightarrow>
            uploadBtn_click files (Response False (Some (JObj kvs'))) pv s =
              ([Fetch (POST_upload (hd files)), Alert ''Upload error: unknown''], None, s)) \<and>
         (plain (own_prop kvs'' ''error'') \<longrightarrow>
            (\<exists>t. ToString (js_or (own_prop kvs'' ''error'') (JStr ''unknown'')) = Inr t \<and>
                 uploadBtn_click files (Response False (Some (JObj kvs''))) pv s =
                   ([Fetch (POST_upload (hd files)), Alert (''Upload error: '' @ t)], None, s)))"
proof -
  have 1: "uploadBtn_click files (Response False (Some (JObj kvs))) pv s =
              ([Fetch (POST_upload (hd files)), Alert (''Upload error: '' @ msg)], None, s)"
    if "map_of kvs ''error'' = Some (JStr msg)" "msg \<noteq> []"
    using that by (intro upload_failure_alert[OF assms]) (simp add: own_prop_def js_or_def)
  have 2: "uploadBtn_click files (Response False (Some (JObj kvs'))) pv s =
              ([Fetch (POST_upload (hd files)), Alert ''Upload error: unknown''], None, s)"
    if "map_of kvs' ''error'' = None"
    using that upload_failure_alert[OF assms, of kvs' "''unknown''" pv s]
    by (simp add: own_prop_def js_or_def)
  have 3: "\<exists>t. ToString (js_or (own_prop kvs'' ''error'') (JStr ''unknown'')) = Inr t \<and>
                 uploadBtn_click files (Response False (Some (JObj kvs''))) pv s =
                   ([Fetch (POST_upload (hd files)), Alert (''Upload error: '' @ t)], None, s)"
    if "plain (own_prop kvs'' ''error'')"
  proof -
    have "plain (js_or (own_prop kvs'' ''error'') (JStr ''unknown''))"
      using that by (simp add: js_or_def)
    from plain_ToString[OF this] obtain t where
      "ToString (js_or (own_prop kvs'' ''error'') (JStr ''unknown'')) = Inr t" by blast
    with upload_failure_alert[OF assms this] show ?thesis by blast
  qed
  from upload_failure_aborts[OF assms, of body pv s] 1 2 3 show ?thesis by blast
qed

text \<open>That branch at an error object and at an empty object.\<close>

theorem upload_failure_witness:
  "[''contacts.xlsx''] \<noteq> [] \<and>
   map_of [(''error'', JStr ''No sheet found'')] ''error'' = Some (JStr ''No sheet found'') \<and>
   map_of ([] :: (string \<times> jsval) list) ''error'' = None \<and>
   uploadBtn_click [''contacts.xlsx''] (Response False (Some (JObj [(''error'', JStr ''No sheet found'')])))
       Rejected page_load =
     ([Fetch (POST_upload ''contacts.xlsx''), Alert ''Upload error: No sheet found''], None, page_load) \<and>
   uploadBtn_click [''contacts.xlsx''] (Response False (Some (JObj []))) Rejected page_load =
     ([Fetch (POST_upload ''contacts.xlsx''), Alert ''Upload error: unknown''], None, page_load)"
proof -
  have h: "[''contacts.xlsx''] \<noteq> []" by simp
  from upload_failure_shows_error_and_changes_nothing[OF h, of _ Rejected page_load
         "[(''error'', JStr ''No sheet found'')]" "''No sheet found''" "[]"]
  show ?thesis by simp
qed

text \<open>
  C6: after a non-success answer to the upload the user is shown the server's error, or
  \<^verbatim>\<open>unknown\<close> when there is none, and nothing else changes. Here the code misses it.
  The handler awaits \<^verbatim>\<open>res.json()\<close> on line 12, before line 13
  looks at \<^verbatim>\<open>res.ok\<close>. When the body of a non-success answer is not JSON the await
  throws, and when the body is \<^verbatim>\<open>null\<close> the read of \<^verbatim>\<open>j.error\<close> throws: the handler ends
  before its own alert, and the user is shown nothing, not even the \<^verbatim>\<open>unknown\<close> fallback
  the claim and line 14 promise.
\<close>

theorem upload_failure_without_json_body_shows_nothing:
  "uploadBtn_click [''contacts.xlsx''] (Response False None) Rejected page_load =
     ([Fetch (POST_upload ''contacts.xlsx'')], Some SyntaxError, page_load) \<and>
   uploadBtn_click [''contacts.xlsx''] (Response False (Some JNull)) Rejected page_load =
     ([Fetch (POST_upload ''contacts.xlsx'')], Some TypeError, page_load)"
  by (simp add: uploadBtn_click_def js_get_def)

section \<open>Polling\<close>

lemma interval_tick_state: "snd (snd (interval_tick h s)) = s"
  by (simp add: interval_tick_def split: sum.splits)

lemma interval_tick_unscheduled: "\<not> scheduled h s \<Longrightarrow> fst (interval_tick h s) = []"
  by (simp add: interval_tick_def)

lemma scheduled_clearInterval: "scheduled h (clearInterval k s) = (scheduled h s \<and> h \<noteq> k)"
  by (auto simp: scheduled_def clearInterval_def nth_list_update)

lemma scheduled_display [simp]:
  "scheduled h (s\<lparr>progressText_textContent := a\<rparr>) = scheduled h s"
  "scheduled h (s\<lparr>progressFill_width := b\<rparr>) = scheduled h s"
  "scheduled h (s\<lparr>progressFill_textContent := c\<rparr>) = scheduled h s"
  by (simp_all add: scheduled_def)

lemma interval_resume_unscheduled:
  "\<not> scheduled h s \<Longrightarrow> \<not> scheduled h (snd (interval_resume k r s))"
  by (auto simp: interval_resume_def scheduled_clearInterval Let_def
      split: fetch_result.splits option.splits sum.splits)

lemma run_unscheduled:
  "\<not> scheduled h s \<Longrightarrow> h \<notin> fst ` set (fst (run evs s)) \<and> \<not> scheduled h (snd (run evs s))"
proof (induction evs arbitrary: s)
  case Nil
  then show ?case by simp
next
  case (Cons ev evs)
  show ?case
  proof (cases ev)
    case (Tick k)
    obtain es x s1 where t: "interval_tick k s = (es, x, s1)" by (cases "interval_tick k s") auto
    have s1: "s1 = s" using interval_tick_state[of k s] t by simp
    have es: "k = h \<Longrightarrow> es = []" using interval_tick_unscheduled[of k s] Cons.prems t by simp
    obtain rest s2 where r: "run evs s = (rest, s2)" by (cases "run evs s") auto
    from Cons.IH[OF Cons.prems] r have "h \<notin> fst ` set rest" "\<not> scheduled h s2" by simp_all
    then show ?thesis using Tick t s1 r es by (auto simp: image_iff)
  next
    case (Arrive k r)
    from Cons.IH[OF interval_resume_unscheduled[OF Cons.prems, of k r]] Arrive
    show ?thesis by simp
  qed
qed

lemma clearInterval_display [simp]:
  "progressText_textContent (clearInterval h s) = progressText_textContent s"
  "progressFill_textContent (clearInterval h s) = progressFill_textContent s"
  "progressFill_width (clearInterval h s) = progressFill_width s"
  by (simp_all add: clearInterval_def)

text \<open>
  The branch of line 83, where the callback reaches it. When a progress response that
  is not a success arrives with a JSON body, the callback shows the error text and
  clears its timer: whatever happens afterwards, that timer sends no further request.
\<close>

theorem failed_progress_response_stops_polling:
  "fst (interval_resume h (Response False (Some j)) s) = None \<and>
   progressText_textContent (snd (interval_resume h (Response False (Some j)) s)) =
     ''Error fetching progress'' \<and>
   \<not> scheduled h (snd (interval_resume h (Response False (Some j)) s)) \<and>
   h \<notin> fst ` set (fst (run evs (snd (interval_resume h (Response False (Some j)) s)))) \<and>
   \<not> scheduled h (snd (run evs (snd (interval_resume h (Response False (Some j)) s))))"
proof -
  let ?s' = "snd (interval_resume h (Response False (Some j)) s)"
  have r: "interval_resume h (Response False (Some j)) s =
             (None, clearInterval h (s\<lparr>progressText_textContent := ''Error fetching progress''\<rparr>))"
    by (simp add: interval_resume_def)
  have off: "\<not> scheduled h ?s'" by (simp add: r scheduled_clearInterval)
  from run_unscheduled[OF off, of evs] off show ?thesis by (simp add: r)
qed

lemma polling_state:
  "intervals polling = [(JStr ''s1'', True)] \<and> scheduled 0 polling \<and>
   progressText_textContent polling = [] \<and> progressFill_textContent polling = []"
  using three_rows_message_state
  by (simp add: polling_def sendAllBtn_click_def startSend_def pollProgress_def js_get_def
      own_prop_def scheduled_def Let_def)

lemma tick_polling:
  assumes "intervals s = [(JStr ''s1'', True)]"
  shows "interval_tick 0 s = ([Fetch (GET ''/progress/s1'')], None, s)"
  using assms by (simp add: interval_tick_def scheduled_def)

lemma tick_stopped:
  assumes "intervals s = [(JStr ''s1'', False)]"
  shows "interval_tick 0 s = ([], None, s)"
  using assms by (simp add: interval_tick_def scheduled_def)

text \<open>That branch on a run: one request, the failure, and two more seconds without a request.\<close>

theorem failed_progress_response_witness:
  "fst (run [Tick 0, Arrive 0 (Response False (Some (JObj [(''error'', JStr ''no such job'')]))),
             Tick 0, Tick 0] polling) = [(0, Fetch (GET ''/progress/s1''))]"
proof -
  let ?r = "Response False (Some (JObj [(''error'', JStr ''no such job'')]))"
  let ?s' = "snd (interval_resume 0 ?r polling)"
  from failed_progress_response_stops_polling[of 0 "JObj [(''error'', JStr ''no such job'')]" polling
          "[Tick 0, Tick 0]"]
  have "0 \<notin> fst ` set (fst (run [Tick 0, Tick 0] ?s'))" "\<not> scheduled 0 ?s'" by simp_all
  then have "fst (run [Tick 0, Tick 0] ?s') = []"
    by (simp add: interval_tick_def split: prod.splits)
  then show ?thesis
    using tick_polling[of polling] polling_state by (simp split: prod.splits)
qed

text \<open>
  C2: after a progress response that is not a success the poller shows the error text
  and sends no further request for that job. Here the code misses it. The callback
  awaits \<^verbatim>\<open>res.json()\<close> on line 82, before line
  83 looks at \<^verbatim>\<open>res.ok\<close>. When the body of a non-success response is not JSON the await
  throws and line 83 is never reached: no error text is shown, the timer stays
  scheduled, and the next tick sends the next request for the same job.
\<close>

theorem failed_progress_without_json_body_keeps_polling:
  "run [Tick 0, Arrive 0 (Response False None), Tick 0] polling =
     ([(0, Fetch (GET ''/progress/s1'')), (0, Fetch (GET ''/progress/s1''))], polling) \<and>
   progressText_textContent polling = [] \<and> scheduled 0 polling"
proof -
  have "interval_resume 0 (Response False None) polling = (Some SyntaxError, polling)"
    by (simp add: interval_resume_def)
  then show ?thesis
    using tick_polling[of polling] polling_state by simp
qed

lemma status_line_total:
  assumes "plain (own_prop kvs ''status'')" "plain (own_prop kvs ''sent'')"
    "plain (own_prop kvs ''total'')" "plain (own_prop kvs ''failed'')"
  shows "\<exists>line. status_line (JObj kvs) = Inr line"
proof -
  from assms obtain a b c d where
    "ToString (own_prop kvs ''status'') = Inr a" "ToString (own_prop kvs ''sent'') = Inr b"
    "ToString (own_prop kvs ''total'') = Inr c" "ToString (own_prop kvs ''failed'') = Inr d"
    using plain_ToString by meson
  then show ?thesis by (simp add: status_line_def js_get_def)
qed

lemma resume_terminal:
  assumes "progress_state j"
    and "js_get j ''status'' = Inr (JStr ''completed'') \<or> js_get j ''status'' = Inr (JStr ''failed'')"
  shows "\<exists>pc t line. js_get j ''percent'' = Inr pc \<and> ToString pc = Inr t \<and>
           status_line j = Inr line \<and>
           interval_resume h (Response True (Some j)) s =
             (None, clearInterval h (s\<lparr>progressFill_width := t @ ''%'',
                                        progressFill_textContent := t @ ''%'',
                                        progressText_textContent := line\<rparr>))"
proof -
  from assms(1) obtain kvs where j: "j = JObj kvs"
    and p: "plain (own_prop kvs ''percent'')" "plain (own_prop kvs ''status'')"
      "plain (own_prop kvs ''sent'')" "plain (own_prop kvs ''total'')"
      "plain (own_prop kvs ''failed'')"
    by (auto simp: progress_state_def split: jsval.splits)
  from plain_ToString[OF p(1)] obtain t where t: "ToString (own_prop kvs ''percent'') = Inr t"
    by blast
  from status_line_total[OF p(2-5)] obtain line where l: "status_line (JObj kvs) = Inr line"
    by blast
  have "interval_resume h (Response True (Some j)) s =
             (None, clearInterval h (s\<lparr>progressFill_width := t @ ''%'',
                                        progressFill_textContent := t @ ''%'',
                                        progressText_textContent := line\<rparr>))"
    using assms(2) t l by (auto simp: interval_resume_def j js_get_def Let_def)
  then show ?thesis using t l by (simp add: j js_get_def)
qed

lemma four_responses_run:
  "fst (run four_responses polling) =
     [(0, Fetch (GET ''/progress/s1'')), (0, Fetch (GET ''/progress/s1'')),
      (0, Fetch (GET ''/progress/s1'')), (0, Fetch (GET ''/progress/s1''))] \<and>
   progressFill_textContent (snd (run four_responses polling)) = ''100%'' \<and>
   progressText_textContent (snd (run four_responses polling)) =
     ''Status: completed '' @ emdash @ '' Sent: 5 / 5 '' @ emdash @ '' Failed: 0''"
  using polling_state
  by (simp add: four_responses_def progress_def interval_tick_def interval_resume_def
      status_line_def js_get_def own_prop_def scheduled_def clearInterval_def Let_def)

text \<open>
  C3. When a successful progress response with status \<^verbatim>\<open>completed\<close> or \<^verbatim>\<open>failed\<close>
  arrives, the callback shows its percent and clears its timer: whatever happens
  afterwards, that timer sends no further request. Over the responses pending,
  running 40, running 80, completed 100, four requests go out, none after the last
  response, and the bar reads 100%.
\<close>

theorem terminal_status_stops_polling:
  assumes "progress_state j"
    and "js_get j ''status'' = Inr (JStr ''completed'') \<or> js_get j ''status'' = Inr (JStr ''failed'')"
  shows "(\<exists>pc t. js_get j ''percent'' = Inr pc \<and> ToString pc = Inr t \<and>
            progressFill_textContent (snd (interval_resume h (Response True (Some j)) s)) = t @ ''%'') \<and>
         fst (interval_resume h (Response True (Some j)) s) = None \<and>
         \<not> scheduled h (snd (interval_resume h (Response True (Some j)) s)) \<and>
         h \<notin> fst ` set (fst (run evs (snd (interval_resume h (Response True (Some j)) s)))) \<and>
         \<not> scheduled h (snd (run evs (snd (interval_resume h (Response True (Some j)) s)))) \<and>
         fst (run four_responses polling) =
           [(0, Fetch (GET ''/progress/s1'')), (0, Fetch (GET ''/progress/s1'')),
            (0, Fetch (GET ''/progress/s1'')), (0, Fetch (GET ''/progress/s1''))] \<and>
         progressFill_textContent (snd (run four_responses polling)) = ''100%''"
proof -
  let ?s' = "snd (interval_resume h (Response True (Some j)) s)"
  from resume_terminal[OF assms, of h s] obtain pc t line where
    pc: "js_get j ''percent'' = Inr pc" "ToString pc = Inr t"
    and r: "interval_resume h (Response True (Some j)) s =
             (None, clearInterval h (s\<lparr>progressFill_width := t @ ''%'',
                                        progressFill_textContent := t @ ''%'',
                                        progressText_textContent := line\<rparr>))"
    by blast
  have off: "\<not> scheduled h ?s'" by (simp add: r scheduled_clearInterval)
  have shown: "progressFill_textContent ?s' = t @ ''%''" by (simp add: r)
  from run_unscheduled[OF off, of evs] off pc shown r four_responses_run
  show ?thesis by simp
qed

text \<open>C3 at the response completed 100.\<close>

theorem terminal_status_witness:
  "progress_state (progress ''completed'' ''100'' ''5'') \<and>
   js_get (progress ''completed'' ''100'' ''5'') ''status'' = Inr (JStr ''completed'') \<and>
   progressFill_textContent
     (snd (interval_resume 0 (Response True (Some (progress ''completed'' ''100'' ''5''))) polling)) =
     ''100%'' \<and>
   fst (run [Tick 0, Tick 0]
     (snd (interval_resume 0 (Response True (Some (progress ''completed'' ''100'' ''5''))) polling))) = []"
proof -
  let ?j = "progress ''completed'' ''100'' ''5''"
  let ?s' = "snd (interval_resume 0 (Response True (Some ?j)) polling)"
  have h1: "progress_state ?j" by (simp add: progress_state_def progress_def own_prop_def)
  have h2: "js_get ?j ''status'' = Inr (JStr ''completed'')"
    by (simp add: progress_def js_get_def own_prop_def)
  have pc: "js_get ?j ''percent'' = Inr (JNum ''100'')"
    by (simp add: progress_def js_get_def own_prop_def)
  from terminal_status_stops_polling[OF h1 disjI1[OF h2], of 0 polling "[Tick 0, Tick 0]"]
  have a: "\<exists>pc t. js_get ?j ''percent'' = Inr pc \<and> ToString pc = Inr t \<and>
             progressFill_textContent ?s' = t @ ''%''"
    and b: "\<not> scheduled 0 ?s'"
    by blast+
  from a pc have "progressFill_textContent ?s' = ''100%''" by auto
  moreover from b have "fst (run [Tick 0, Tick 0] ?s') = []"
    by (simp add: interval_tick_def split: prod.splits)
  ultimately show ?thesis using h1 h2 by simp
qed

end
